theory Spec2Isabelle
  imports Main "HOL-Library.AList"
begin

section \<open>The safe-query base class \<open>SequelizeModel\<close> and the Chats migration\<close>

text \<open>
  The TypeScript class \<open>SequelizeModel\<close> (the part of
  \<^verbatim>\<open>src/models/SubjectiveAttempt.ts\<close> that starts with
  \<^verbatim>\<open>export class SequelizeModel<T> extends Model<T>\<close>) rewrites a query options
  object and hands it to the ORM. The embedding below follows it function by function.
  JavaScript values are finite trees: an options object written as a literal has no
  sharing and no cycle, so the in-place assignments of the source are functional updates
  at the same position of the tree.
\<close>

subsection \<open>Column metadata and model classes\<close>

text \<open>
  The \<open>references\<close> entry of a column is a table name or an options object
  (\<^verbatim>\<open>string | ModelAttributeColumnReferencesOptions\<close>).
\<close>

datatype reference = RefTable string | RefOptions "string option" "string option"

text \<open>
  \<open>ModelAttributeColumnOptions\<close>: only the two fields that \<open>isIndex\<close> reads are
  named; \<open>None\<close> is an absent field.
\<close>

record column =
  primaryKey :: "bool option"
  references :: "reference option"

text \<open>
  A model class. \<open>rawAttributes\<close> lists the own enumerable properties of the
  JavaScript object of that name in the order a \<^verbatim>\<open>for ... in\<close> loop visits them.
  \<open>extendsSequelizeModel\<close> tells whether the class derives from \<open>SequelizeModel\<close>
  and so has the static helper \<open>filterAttributes\<close>; a model class of the ORM that does
  not derive from it has no such member.
\<close>

record model_class =
  modelName :: string
  rawAttributes :: "(string \<times> column) list"
  extendsSequelizeModel :: bool

text \<open>
  Modelled from the spec: the enumeration \<open>SequelizeAttributes\<close> is declared in
  \<^verbatim>\<open>types/SequelizeAttributes\<close>, which is not among the sources; the spec gives its two
  values.
\<close>

datatype SequelizeAttributes = WithIndexes | WithoutIndexes

subsection \<open>JavaScript values\<close>

datatype jsval =
    Undefined
  | Null
  | JBool bool
  | JNum int
  | JStr string
  | JArr "jsval list"
  | JObj "(string \<times> jsval) list"
  | JModel model_class

type_synonym jsobj = "(string \<times> jsval) list"

datatype error = TypeError

text \<open>The truth value JavaScript gives a value in a condition.\<close>

fun truthy :: "jsval \<Rightarrow> bool" where
  "truthy Undefined = False"
| "truthy Null = False"
| "truthy (JBool b) = b"
| "truthy (JNum n) = (n \<noteq> 0)"
| "truthy (JStr s) = (s \<noteq> [])"
| "truthy (JArr xs) = True"
| "truthy (JObj ps) = True"
| "truthy (JModel m) = True"

text \<open>
  \<open>v[k]\<close> for a data property. A plain object answers from its own properties and
  everything else with \<open>undefined\<close>: the wrapper reads only \<open>model\<close> and
  \<open>include\<close> this way, which neither a primitive, an array nor a model class has.
\<close>

fun getProp :: "jsval \<Rightarrow> string \<Rightarrow> jsval" where
  "getProp (JObj ps) k = (case map_of ps k of Some v \<Rightarrow> v | None \<Rightarrow> Undefined)"
| "getProp v k = Undefined"

text \<open>
  The truth value of \<open>v.filterAttributes\<close>: the static helper on a class derived
  from \<open>SequelizeModel\<close>, a data property of that name on a plain object.
\<close>

fun hasFilterAttributes :: "jsval \<Rightarrow> bool" where
  "hasFilterAttributes (JModel m) = extendsSequelizeModel m"
| "hasFilterAttributes v = truthy (getProp v ''filterAttributes'')"

text \<open>
  \<open>o[k] = v\<close> on a plain object: an existing property keeps its place, a new one is
  added last. The wrapper assigns only to objects.
\<close>

fun setProp :: "jsval \<Rightarrow> string \<Rightarrow> jsval \<Rightarrow> jsval" where
  "setProp (JObj ps) k v = JObj (AList.update k v ps)"
| "setProp w k v = w"

subsection \<open>Attribute lists\<close>

definition orDefault :: "'a \<Rightarrow> 'a option \<Rightarrow> 'a" where
  "orDefault d x = (case x of None \<Rightarrow> d | Some v \<Rightarrow> v)"

text \<open>\<^verbatim>\<open>!!(column.primaryKey || column.references)\<close>: an empty table name is falsy.\<close>

definition isIndex :: "column \<Rightarrow> bool" where
  "isIndex col =
     (primaryKey col = Some True \<or>
      (case references col of
         None \<Rightarrow> False
       | Some (RefTable t) \<Rightarrow> t \<noteq> []
       | Some (RefOptions m k) \<Rightarrow> True))"

text \<open>
  \<open>this.isIndex(this.rawAttributes[key])\<close> for a key the loop visits. The key is an
  own property, so the lookup finds its column.
\<close>

definition isIndexAt :: "model_class \<Rightarrow> string \<Rightarrow> bool" where
  "isIndexAt m key =
     (case map_of (rawAttributes m) key of Some col \<Rightarrow> isIndex col | None \<Rightarrow> False)"

text \<open>What one round of the loop of \<open>getAttributesCore\<close> pushes for \<open>key\<close>.\<close>

definition pushed :: "model_class \<Rightarrow> bool option \<Rightarrow> string \<Rightarrow> string list" where
  "pushed m indexes key =
     (if indexes = None then [key] else []) @
     (if indexes = Some True \<and> isIndexAt m key then [key]
      else if indexes = Some False \<and> \<not> isIndexAt m key then [key]
      else [])"

definition getAttributesCore :: "model_class \<Rightarrow> bool option \<Rightarrow> string list" where
  "getAttributesCore m indexes = concat (map (pushed m indexes) (map fst (rawAttributes m)))"

definition getNonIndexes :: "model_class \<Rightarrow> string list" where
  "getNonIndexes m = getAttributesCore m (Some False)"

definition getIndexes :: "model_class \<Rightarrow> string list" where
  "getIndexes m = getAttributesCore m (Some True)"

definition getAttributes :: "model_class \<Rightarrow> string list" where
  "getAttributes m = getAttributesCore m None"

text \<open>The parameter defaults to \<open>WithoutIndexes\<close> here, and to \<open>WithIndexes\<close> everywhere else.\<close>

definition filterAttributes :: "model_class \<Rightarrow> SequelizeAttributes option \<Rightarrow> string list" where
  "filterAttributes m attributeTypes =
     (if orDefault WithoutIndexes attributeTypes = WithIndexes
      then getAttributes m else getNonIndexes m)"

definition attributeArray :: "string list \<Rightarrow> jsval" where
  "attributeArray keys = JArr (map JStr keys)"

subsection \<open>Rewriting the includes\<close>

text \<open>
  The call \<open>v.filterAttributes(attributeTypes)\<close>. Only a class derived from
  \<open>SequelizeModel\<close> has the method; on any other value the member is undefined or is
  not a function, and the call raises a \<open>TypeError\<close>.
\<close>

fun callFilterAttributes :: "jsval \<Rightarrow> SequelizeAttributes \<Rightarrow> error + jsval" where
  "callFilterAttributes (JModel m) attributeTypes =
     (if extendsSequelizeModel m
      then Inr (attributeArray (filterAttributes m (Some attributeTypes)))
      else Inl TypeError)"
| "callFilterAttributes v attributeTypes = Inl TypeError"

definition addAttributesToInclude :: "SequelizeAttributes option \<Rightarrow> jsval \<Rightarrow> error + jsval" where
  "addAttributesToInclude attributeTypes incl =
     (if truthy incl \<and> (truthy (getProp incl ''model'') \<or> hasFilterAttributes incl)
      then
        (let target = (if truthy (getProp incl ''model'') then getProp incl ''model'' else incl)
         in case callFilterAttributes target (orDefault WithIndexes attributeTypes) of
              Inl e \<Rightarrow> Inl e
            | Inr attrs \<Rightarrow> Inr (JObj [(''model'', target), (''attributes'', attrs)]))
      else Inr incl)"

text \<open>\<open>xs.map(f)\<close> where \<open>f\<close> may throw: the first exception ends the map.\<close>

fun mapE :: "('a \<Rightarrow> error + 'b) \<Rightarrow> 'a list \<Rightarrow> error + 'b list" where
  "mapE f [] = Inr []"
| "mapE f (x # xs) =
     (case f x of
        Inl e \<Rightarrow> Inl e
      | Inr y \<Rightarrow> (case mapE f xs of Inl e \<Rightarrow> Inl e | Inr ys \<Rightarrow> Inr (y # ys)))"

text \<open>\<open>Array.isArray(v)\<close>, and the elements of an array.\<close>

fun isArray :: "jsval \<Rightarrow> bool" where
  "isArray (JArr xs) = True"
| "isArray v = False"

fun elements :: "jsval \<Rightarrow> jsval list" where
  "elements (JArr xs) = xs"
| "elements v = []"

text \<open>
  The value assigned to \<open>opts.include\<close> in the body of the loop: the array mapped
  with \<open>addAttributesToInclude\<close>, or the single entry rewritten.
\<close>

definition rewriteInclude :: "SequelizeAttributes \<Rightarrow> jsval \<Rightarrow> error + jsval" where
  "rewriteInclude attributeTypes inc =
     (if isArray inc
      then (case mapE (addAttributesToInclude (Some attributeTypes)) (elements inc) of
              Inl e \<Rightarrow> Inl e
            | Inr ys \<Rightarrow> Inr (JArr ys))
      else addAttributesToInclude (Some attributeTypes) inc)"

text \<open>
  How many times \<open>include\<close> can be followed from a value; the loop of
  \<open>getAttributesDeep\<close> goes down one level in each round.
\<close>

fun includeDepth :: "jsval \<Rightarrow> nat" and propsDepth :: "(string \<times> jsval) list \<Rightarrow> nat" where
  "includeDepth (JObj ps) = propsDepth ps"
| "includeDepth v = 0"
| "propsDepth [] = 0"
| "propsDepth (p # ps) =
     (if fst p = ''include'' then Suc (includeDepth (snd p)) else propsDepth ps)"

text \<open>
  The loop \<^verbatim>\<open>while (opts) { ...; opts = opts.include }\<close> of \<open>getAttributesDeep\<close>,
  started at \<open>opts\<close>. The result is \<open>opts\<close> as the loop leaves it, and the
  exception if one ended the loop. A round assigns the rewritten value to
  \<open>opts.include\<close> and the next round works on that value in place; when the rewriting
  throws, nothing has been assigned in that round.
\<close>

function includeLoop :: "SequelizeAttributes \<Rightarrow> jsval \<Rightarrow> jsval \<times> error option" where
  "includeLoop attributeTypes opts =
     (if truthy opts then
        (if truthy (getProp opts ''include'') then
           (case rewriteInclude attributeTypes (getProp opts ''include'') of
              Inl e \<Rightarrow> (opts, Some e)
            | Inr inc \<Rightarrow>
                (case includeLoop attributeTypes inc of
                   (inc', thrown) \<Rightarrow> (setProp opts ''include'' inc', thrown)))
         else (opts, None))
      else (opts, None))"
  by pat_completeness auto
termination
proof (relation "measure (\<lambda>(p, opts). includeDepth opts)")
  show "wf (measure (\<lambda>(p, opts). includeDepth opts))" by simp
next
  fix attributeTypes opts inc
  assume present: "truthy (getProp opts ''include'')"
    and rewritten: "rewriteInclude attributeTypes (getProp opts ''include'') = Inr inc"
  have lookup: "propsDepth ps = Suc (includeDepth v)"
    if "map_of ps ''include'' = Some v" for ps v
    using that by (induction ps) (auto split: if_splits)
  have down: "includeDepth opts = Suc (includeDepth (getProp opts ''include''))"
    using present by (cases opts) (auto simp: lookup split: option.splits)
  have one: "includeDepth r \<le> includeDepth i"
    if "addAttributesToInclude p i = Inr r" for p i r
    using that
    by (auto simp: addAttributesToInclude_def Let_def split: if_splits sum.splits)
  have "includeDepth inc \<le> includeDepth (getProp opts ''include'')"
    using rewritten
    by (cases "getProp opts ''include''")
       (auto simp: rewriteInclude_def dest: one split: sum.splits)
  with down
  show "((attributeTypes, inc), (attributeTypes, opts)) \<in> measure (\<lambda>(p, opts). includeDepth opts)"
    by simp
qed

text \<open>The \<open>options\<close> argument: an object, or \<open>None\<close> when the caller leaves it out.\<close>

fun optionsValue :: "jsobj option \<Rightarrow> jsval" where
  "optionsValue None = Undefined"
| "optionsValue (Some ps) = JObj ps"

text \<open>
  \<open>getAttributesDeep\<close> on the model class \<open>m\<close> (the \<open>this\<close> of the static
  call). The first component is the caller's \<open>options\<close> after the assignments, the
  second the exception if one was thrown. With no exception the function returns
  \<open>options\<close>, the same object.
\<close>

definition getAttributesDeep ::
  "model_class \<Rightarrow> SequelizeAttributes option \<Rightarrow> jsobj option \<Rightarrow> jsval \<times> error option" where
  "getAttributesDeep m attributeTypes options =
     (let at = orDefault WithIndexes attributeTypes;
          opts = optionsValue options;
          opts1 = (if truthy opts
                   then setProp opts ''attributes'' (attributeArray (filterAttributes m (Some at)))
                   else opts)
      in includeLoop at opts1)"

subsection \<open>The safe-query methods\<close>

text \<open>
  The ORM is outside the class. A safe-query method leaves the caller's options object in
  some state, and either fails in the wrapper or ends in one call of the ORM; the result
  is that state together with the exception or the call and its arguments.
\<close>

datatype orm_call =
    FindAll jsval
  | Create jsval jsval
  | FindOne jsval
  | FindByPk jsval jsval
  | FindOrCreate jsval

text \<open>
  \<^verbatim>\<open>let filteredOptions = this.getAttributesDeep(...); return this.f(filteredOptions)\<close>,
  for the ORM method \<open>f\<close>.
\<close>

definition delegate :: "(jsval \<Rightarrow> orm_call) \<Rightarrow> jsval \<times> error option \<Rightarrow> jsval \<times> (error + orm_call)" where
  "delegate f filtered =
     (case filtered of
        (options, Some e) \<Rightarrow> (options, Inl e)
      | (filteredOptions, None) \<Rightarrow> (filteredOptions, Inr (f filteredOptions)))"

definition findAllSafe ::
  "model_class \<Rightarrow> SequelizeAttributes option \<Rightarrow> jsobj option \<Rightarrow> jsval \<times> (error + orm_call)" where
  "findAllSafe m attributeTypes options =
     delegate FindAll (getAttributesDeep m (Some (orDefault WithIndexes attributeTypes)) options)"

definition createSafe ::
  "model_class \<Rightarrow> jsval \<Rightarrow> SequelizeAttributes option \<Rightarrow> jsobj option \<Rightarrow>
   jsval \<times> (error + orm_call)" where
  "createSafe m values attributeTypes options =
     delegate (Create values)
       (getAttributesDeep m (Some (orDefault WithIndexes attributeTypes)) options)"

definition findOneSafe ::
  "model_class \<Rightarrow> SequelizeAttributes option \<Rightarrow> jsobj option \<Rightarrow> jsval \<times> (error + orm_call)" where
  "findOneSafe m attributeTypes options =
     delegate FindOne (getAttributesDeep m (Some (orDefault WithIndexes attributeTypes)) options)"

definition findByPkSafe ::
  "model_class \<Rightarrow> SequelizeAttributes option \<Rightarrow> jsval \<Rightarrow> jsobj option \<Rightarrow>
   jsval \<times> (error + orm_call)" where
  "findByPkSafe m attributeTypes identifier options =
     delegate (FindByPk identifier)
       (getAttributesDeep m (Some (orDefault WithIndexes attributeTypes)) options)"

definition findOrCreateSafe ::
  "model_class \<Rightarrow> SequelizeAttributes option \<Rightarrow> jsobj option \<Rightarrow> jsval \<times> (error + orm_call)" where
  "findOrCreateSafe m attributeTypes options =
     delegate FindOrCreate
       (getAttributesDeep m (Some (orDefault WithIndexes attributeTypes)) options)"

text \<open>
  For statements about all five methods: the method with its arguments other than the
  policy and the options, and the options an ORM call was given.
\<close>

datatype safe_method =
    FindAllSafe
  | CreateSafe jsval
  | FindOneSafe
  | FindByPkSafe jsval
  | FindOrCreateSafe

fun callSafe ::
  "safe_method \<Rightarrow> model_class \<Rightarrow> SequelizeAttributes option \<Rightarrow> jsobj option \<Rightarrow>
   jsval \<times> (error + orm_call)" where
  "callSafe FindAllSafe m p options = findAllSafe m p options"
| "callSafe (CreateSafe values) m p options = createSafe m values p options"
| "callSafe FindOneSafe m p options = findOneSafe m p options"
| "callSafe (FindByPkSafe identifier) m p options = findByPkSafe m p identifier options"
| "callSafe FindOrCreateSafe m p options = findOrCreateSafe m p options"

fun handedOptions :: "orm_call \<Rightarrow> jsval" where
  "handedOptions (FindAll options) = options"
| "handedOptions (Create values options) = options"
| "handedOptions (FindOne options) = options"
| "handedOptions (FindByPk identifier options) = options"
| "handedOptions (FindOrCreate options) = options"

subsection \<open>The migration of the table Chats\<close>

text \<open>
  A column as \<open>addColumn\<close> is given it: an enumerated type with its values and a
  default value.
\<close>

record column_spec =
  enumValues :: "string list"
  defaultValue :: string

type_synonym table_schema = "(string \<times> column_spec) list"

type_synonym db_schema = "string \<rightharpoonup> table_schema"

datatype db_error = NoSuchTable | DuplicateColumn | NoSuchColumn

text \<open>
  Modelled from the spec: \<open>queryInterface.addColumn\<close> and
  \<open>queryInterface.removeColumn\<close> belong to the ORM and the database and are not among
  the sources. The spec says that the first adds a column and the second removes it; they
  are taken as the statements ALTER TABLE ... ADD and ALTER TABLE ... DROP COLUMN on a
  schema that maps each table to its columns in order, which reject a table that does not
  exist, a column that is there already, and a column that is not there.
\<close>

definition addColumn ::
  "string \<Rightarrow> string \<Rightarrow> column_spec \<Rightarrow> db_schema \<Rightarrow> db_error + db_schema" where
  "addColumn t c spec db =
     (case db t of
        None \<Rightarrow> Inl NoSuchTable
      | Some cols \<Rightarrow>
          if c \<in> set (map fst cols) then Inl DuplicateColumn
          else Inr (db(t \<mapsto> cols @ [(c, spec)])))"

definition removeColumn :: "string \<Rightarrow> string \<Rightarrow> db_schema \<Rightarrow> db_error + db_schema" where
  "removeColumn t c db =
     (case db t of
        None \<Rightarrow> Inl NoSuchTable
      | Some cols \<Rightarrow>
          if c \<in> set (map fst cols) then Inr (db(t \<mapsto> filter (\<lambda>p. fst p \<noteq> c) cols))
          else Inl NoSuchColumn)"

text \<open>
  \<open>up\<close> and \<open>down\<close> of \<^verbatim>\<open>20210521101108-add_column_in_chat.js\<close>. The constant
  \<open>ChatTypesEnum\<close> comes from \<^verbatim>\<open>../types\<close>, which is not among the sources, and is
  a parameter.
\<close>

definition up :: "string list \<Rightarrow> db_schema \<Rightarrow> db_error + db_schema" where
  "up ChatTypesEnum db =
     addColumn ''Chats'' ''type'' \<lparr>enumValues = ChatTypesEnum, defaultValue = ''chat''\<rparr> db"

definition down :: "db_schema \<Rightarrow> db_error + db_schema" where
  "down db = removeColumn ''Chats'' ''type'' db"

subsection \<open>The model classes of the sources\<close>

text \<open>
  The columns of the three entity classes of the sources, in the order they are declared.
  \<open>@PrimaryKey\<close> sets \<open>primaryKey\<close>; \<open>@ForeignKey\<close> together with
  \<open>@BelongsTo\<close> gives the column a \<open>references\<close> object that names the other
  model (its key column is declared in files that are not among the sources).
\<close>

definition plainColumn :: column where
  "plainColumn = \<lparr>primaryKey = None, references = None\<rparr>"

definition Role :: model_class where
  "Role =
     \<lparr>modelName = ''Role'',
      rawAttributes =
        [(''_roleId'', \<lparr>primaryKey = Some True, references = None\<rparr>),
         (''roleId'', plainColumn),
         (''roleName'', plainColumn),
         (''createdAt'', plainColumn),
         (''updatedAt'', plainColumn)],
      extendsSequelizeModel = True\<rparr>"

definition Meeting :: model_class where
  "Meeting =
     \<lparr>modelName = ''Meeting'',
      rawAttributes =
        [(''_meetingId'', \<lparr>primaryKey = Some True, references = None\<rparr>),
         (''meetingId'', plainColumn),
         (''createdBy'', \<lparr>primaryKey = None, references = Some (RefOptions (Some ''User'') None)\<rparr>),
         (''status'', plainColumn),
         (''scheduledAt'', plainColumn),
         (''createdAt'', plainColumn),
         (''updatedAt'', plainColumn)],
      extendsSequelizeModel = True\<rparr>"

definition SubjectiveAttempt :: model_class where
  "SubjectiveAttempt =
     \<lparr>modelName = ''SubjectiveAttempt'',
      rawAttributes =
        [(''attemptId'',
            \<lparr>primaryKey = Some True, references = Some (RefOptions (Some ''Attempt'') None)\<rparr>),
         (''QuestionId'',
            \<lparr>primaryKey = Some True, references = Some (RefOptions (Some ''Question'') None)\<rparr>),
         (''obtainedMarks'', plainColumn),
         (''answerText'', plainColumn),
         (''createdAt'', plainColumn),
         (''updatedAt'', plainColumn)],
      extendsSequelizeModel = True\<rparr>"

text \<open>
  A model class of the ORM that does not derive from \<open>SequelizeModel\<close>; the type
  \<open>Includeable\<close> of an include entry admits it.
\<close>

definition OrmModel :: model_class where
  "OrmModel =
     \<lparr>modelName = ''OrmModel'',
      rawAttributes = [(''id'', \<lparr>primaryKey = Some True, references = None\<rparr>), (''name'', plainColumn)],
      extendsSequelizeModel = False\<rparr>"

section \<open>Properties\<close>

subsection \<open>Auxiliary facts\<close>

declare includeLoop.simps [simp del]

lemma concat_pushed_None: "concat (map (pushed m None) ks) = ks"
  by (induction ks) (simp_all add: pushed_def)

lemma concat_pushed_True: "concat (map (pushed m (Some True)) ks) = filter (isIndexAt m) ks"
  by (induction ks) (simp_all add: pushed_def)

lemma concat_pushed_False:
  "concat (map (pushed m (Some False)) ks) = filter (\<lambda>k. \<not> isIndexAt m k) ks"
  by (induction ks) (simp_all add: pushed_def)

lemma getAttributes_keys: "getAttributes m = map fst (rawAttributes m)"
  unfolding getAttributes_def getAttributesCore_def by (rule concat_pushed_None)

lemma getIndexes_keys: "getIndexes m = filter (isIndexAt m) (map fst (rawAttributes m))"
  unfolding getIndexes_def getAttributesCore_def by (rule concat_pushed_True)

lemma getNonIndexes_keys:
  "getNonIndexes m = filter (\<lambda>k. \<not> isIndexAt m k) (map fst (rawAttributes m))"
  unfolding getNonIndexes_def getAttributesCore_def by (rule concat_pushed_False)

lemma filterAttributes_policy:
  "filterAttributes m (Some p) =
     (case p of
        WithIndexes \<Rightarrow> map fst (rawAttributes m)
      | WithoutIndexes \<Rightarrow> filter (\<lambda>key. \<not> isIndexAt m key) (map fst (rawAttributes m)))"
  by (cases p) (simp_all add: filterAttributes_def orDefault_def getAttributes_keys getNonIndexes_keys)

lemma not_isIndexAt:
  "\<not> isIndexAt m key \<Longrightarrow> map_of (rawAttributes m) key = Some col \<Longrightarrow>
   primaryKey col \<noteq> Some True \<and> (\<forall>t. references col = Some t \<longrightarrow> t = RefTable [])"
  by (auto simp: isIndexAt_def isIndex_def split: option.splits reference.splits)

lemma map_of_update_other:
  "k \<noteq> k' \<Longrightarrow> map_of (AList.update k' v ps) k = map_of ps k"
  by (simp add: update_conv')

lemma getProp_setProp_other:
  "k \<noteq> k' \<Longrightarrow> getProp (setProp opts k' v) k = getProp opts k"
  by (cases opts) (simp_all add: update_conv')

lemma includeLoop_stop:
  "\<not> truthy (getProp opts ''include'') \<Longrightarrow> includeLoop p opts = (opts, None)"
  by (subst includeLoop.simps) simp

lemma includeLoop_step:
  "truthy (getProp opts ''include'') \<Longrightarrow>
   includeLoop p opts =
     (case rewriteInclude p (getProp opts ''include'') of
        Inl e \<Rightarrow> (opts, Some e)
      | Inr inc \<Rightarrow>
          (case includeLoop p inc of
             (inc', thrown) \<Rightarrow> (setProp opts ''include'' inc', thrown)))"
  by (subst includeLoop.simps, cases opts) simp_all

lemma includeLoop_frame:
  "k \<noteq> ''include'' \<Longrightarrow> getProp (fst (includeLoop p opts)) k = getProp opts k"
  by (subst includeLoop.simps)
     (auto simp: getProp_setProp_other split: sum.splits prod.splits)

lemma getAttributesDeep_absent: "getAttributesDeep m p None = (Undefined, None)"
  by (simp add: getAttributesDeep_def includeLoop_stop)

lemma getAttributesDeep_present:
  "getAttributesDeep m p (Some ps) =
     includeLoop (orDefault WithIndexes p)
       (JObj (AList.update ''attributes''
          (attributeArray (filterAttributes m (Some (orDefault WithIndexes p)))) ps))"
  by (simp add: getAttributesDeep_def Let_def)

lemma getAttributesDeep_attributes:
  "getProp (fst (getAttributesDeep m p (Some ps))) ''attributes'' =
     attributeArray (filterAttributes m (Some (orDefault WithIndexes p)))"
  by (simp add: getAttributesDeep_present includeLoop_frame update_conv')

lemma getAttributesDeep_frame:
  "k \<noteq> ''include'' \<Longrightarrow> k \<noteq> ''attributes'' \<Longrightarrow>
   getProp (fst (getAttributesDeep m p (Some ps))) k = getProp (JObj ps) k"
  by (simp add: getAttributesDeep_present includeLoop_frame update_conv')

lemma fst_delegate: "fst (delegate f filtered) = fst filtered"
  by (simp add: delegate_def split: prod.splits option.splits)

lemma snd_delegate:
  "snd (delegate f filtered) =
     (case snd filtered of Some e \<Rightarrow> Inl e | None \<Rightarrow> Inr (f (fst filtered)))"
  by (simp add: delegate_def split: prod.splits option.splits)

lemma fst_callSafe:
  "fst (callSafe meth m p options) =
     fst (getAttributesDeep m (Some (orDefault WithIndexes p)) options)"
  by (cases meth)
     (simp_all add: findAllSafe_def createSafe_def findOneSafe_def findByPkSafe_def
        findOrCreateSafe_def fst_delegate)

lemma callSafe_handed:
  "snd (callSafe meth m p options) = Inr call \<Longrightarrow>
   handedOptions call = fst (callSafe meth m p options)"
  by (cases meth)
     (auto simp: findAllSafe_def createSafe_def findOneSafe_def findByPkSafe_def
        findOrCreateSafe_def fst_delegate snd_delegate split: option.splits)

lemma addAttributesToInclude_model:
  "extendsSequelizeModel c \<Longrightarrow>
   addAttributesToInclude p (JModel c) =
     Inr (JObj [(''model'', JModel c),
                (''attributes'', attributeArray (filterAttributes c (Some (orDefault WithIndexes p))))])"
  by (simp add: addAttributesToInclude_def)

lemma addAttributesToInclude_descriptor:
  "map_of ps ''model'' = Some (JModel c) \<Longrightarrow> extendsSequelizeModel c \<Longrightarrow>
   addAttributesToInclude p (JObj ps) =
     Inr (JObj [(''model'', JModel c),
                (''attributes'', attributeArray (filterAttributes c (Some (orDefault WithIndexes p))))])"
  by (simp add: addAttributesToInclude_def)

lemma addAttributesToInclude_unmatched:
  "\<not> (truthy e \<and> (truthy (getProp e ''model'') \<or> hasFilterAttributes e)) \<Longrightarrow>
   addAttributesToInclude p e = Inr e"
  unfolding addAttributesToInclude_def by (simp only: if_False)

lemma mapE_Inr:
  "mapE f xs = Inr ys \<Longrightarrow>
   length ys = length xs \<and> (\<forall>i < length xs. f (xs ! i) = Inr (ys ! i))"
proof (induction xs arbitrary: ys)
  case Nil
  then show ?case by simp
next
  case (Cons x xs)
  then obtain y zs where y: "f x = Inr y" and zs: "mapE f xs = Inr zs" and ys: "ys = y # zs"
    by (auto split: sum.splits)
  from Cons.IH [OF zs] y ys show ?case
    by (auto simp: nth_Cons split: nat.splits)
qed

lemma includeLoop_array:
  assumes "map_of ps ''include'' = Some (JArr xs)"
  shows "includeLoop at (JObj ps) =
           (case mapE (addAttributesToInclude (Some at)) xs of
              Inl err \<Rightarrow> (JObj ps, Some err)
            | Inr ys \<Rightarrow> (JObj (AList.update ''include'' (JArr ys) ps), None))"
  using assms
  by (simp add: includeLoop_step rewriteInclude_def includeLoop_stop split: sum.splits)

lemma includeLoop_single:
  assumes "map_of ps ''include'' = Some inc" and "truthy inc" and "\<not> isArray inc"
    and "addAttributesToInclude (Some at) inc = Inr inc'"
    and "\<not> truthy (getProp inc' ''include'')"
  shows "includeLoop at (JObj ps) = (JObj (AList.update ''include'' inc' ps), None)"
  using assms
  by (simp add: includeLoop_step rewriteInclude_def includeLoop_stop)

lemma findAllSafe_Role_example:
  "findAllSafe Role (Some WithoutIndexes) (Some [(''include'', JModel Meeting)]) =
     (JObj
       [(''include'', JObj [(''model'', JModel Meeting),
           (''attributes'', attributeArray (getNonIndexes Meeting))]),
        (''attributes'', attributeArray (getNonIndexes Role))],
      Inr (FindAll (JObj
       [(''include'', JObj [(''model'', JModel Meeting),
           (''attributes'', attributeArray (getNonIndexes Meeting))]),
        (''attributes'', attributeArray (getNonIndexes Role))])))"
  by (simp add: findAllSafe_def delegate_def getAttributesDeep_present includeLoop_step
        includeLoop_stop rewriteInclude_def addAttributesToInclude_def orDefault_def
        filterAttributes_def Meeting_def Role_def)

lemma callSafe_delegates:
  "snd (getAttributesDeep m (Some (orDefault WithIndexes p)) options) = None \<Longrightarrow>
   \<exists>call. snd (callSafe meth m p options) = Inr call"
  by (cases meth)
     (simp_all add: findAllSafe_def createSafe_def findOneSafe_def findByPkSafe_def
        findOrCreateSafe_def snd_delegate)

lemma getAttributesDeep_array:
  assumes "map_of ps ''include'' = Some (JArr xs)"
  shows "\<exists>ys. getProp (fst (getAttributesDeep m p (Some ps))) ''include'' = JArr ys \<and>
              length ys = length xs \<and>
              (\<forall>i < length xs.
                 ys ! i = xs ! i \<or>
                 addAttributesToInclude (Some (orDefault WithIndexes p)) (xs ! i) = Inr (ys ! i)) \<and>
              (snd (getAttributesDeep m p (Some ps)) = None \<longrightarrow>
                 (\<forall>i < length xs.
                    addAttributesToInclude (Some (orDefault WithIndexes p)) (xs ! i) = Inr (ys ! i)))"
proof -
  let ?at = "orDefault WithIndexes p"
  let ?ps = "AList.update ''attributes'' (attributeArray (filterAttributes m (Some ?at))) ps"
  have inc: "map_of ?ps ''include'' = Some (JArr xs)"
    using assms by (simp add: map_of_update_other)
  show ?thesis
  proof (cases "mapE (addAttributesToInclude (Some ?at)) xs")
    case (Inl err)
    then show ?thesis
      using inc by (simp add: getAttributesDeep_present includeLoop_array)
  next
    case (Inr ys)
    from mapE_Inr [OF Inr] Inr show ?thesis
      using inc by (simp add: getAttributesDeep_present includeLoop_array update_conv')
  qed
qed

lemma getAttributesDeep_single:
  assumes "map_of ps ''include'' = Some inc" and "truthy inc" and "\<not> isArray inc"
    and "addAttributesToInclude (Some (orDefault WithIndexes p)) inc = Inr inc'"
    and "\<not> truthy (getProp inc' ''include'')"
  shows "snd (getAttributesDeep m p (Some ps)) = None \<and>
         getProp (fst (getAttributesDeep m p (Some ps))) ''include'' = inc'"
proof -
  let ?at = "orDefault WithIndexes p"
  let ?ps = "AList.update ''attributes'' (attributeArray (filterAttributes m (Some ?at))) ps"
  have "map_of ?ps ''include'' = Some inc"
    using assms(1) by (simp add: map_of_update_other)
  from includeLoop_single [OF this assms(2,3,4,5)] show ?thesis
    by (simp add: getAttributesDeep_present update_conv')
qed

subsection \<open>The claims\<close>

text \<open>
  C1. The claim: whenever the options have an \<open>include\<close>, single or a collection, every
  include entry at every depth is replaced by \<open>{ model, attributes }\<close> with the child
  model's own list under the same policy, so that an include nested in another include is
  rewritten too. The code does not do this. \<open>addAttributesToInclude\<close> builds the
  replacement from \<open>model\<close> and \<open>attributes\<close> alone, so the nested \<open>include\<close> of an
  entry it rewrites is gone before the loop can reach it, and the loop does not go into
  the elements of an array. At the options below the entry of \<open>SubjectiveAttempt\<close> is
  rewritten and the include of \<open>Role\<close> nested in it is dropped, in an array and alone.
\<close>

theorem nested_include_is_dropped:
  "snd (findAllSafe Meeting (Some WithoutIndexes)
     (Some [(''include'',
        JArr [JObj [(''model'', JModel SubjectiveAttempt),
                    (''include'', JArr [JObj [(''model'', JModel Role)]])]])])) =
   Inr (FindAll (JObj
     [(''include'',
        JArr [JObj [(''model'', JModel SubjectiveAttempt),
                    (''attributes'', attributeArray (getNonIndexes SubjectiveAttempt))]]),
      (''attributes'', attributeArray (getNonIndexes Meeting))])) \<and>
   snd (findAllSafe Meeting (Some WithoutIndexes)
     (Some [(''include'',
        JObj [(''model'', JModel SubjectiveAttempt),
              (''include'', JObj [(''model'', JModel Role)])])])) =
   Inr (FindAll (JObj
     [(''include'',
        JObj [(''model'', JModel SubjectiveAttempt),
              (''attributes'', attributeArray (getNonIndexes SubjectiveAttempt))]),
      (''attributes'', attributeArray (getNonIndexes Meeting))])) \<and>
   getNonIndexes SubjectiveAttempt =
     [''obtainedMarks'', ''answerText'', ''createdAt'', ''updatedAt''] \<and>
   getNonIndexes Role = [''roleId'', ''roleName'', ''createdAt'', ''updatedAt'']"
proof -
  have lists: "getNonIndexes SubjectiveAttempt =
                 [''obtainedMarks'', ''answerText'', ''createdAt'', ''updatedAt'']"
    "getNonIndexes Role = [''roleId'', ''roleName'', ''createdAt'', ''updatedAt'']"
    by (simp_all add: getNonIndexes_keys SubjectiveAttempt_def Role_def isIndexAt_def
          isIndex_def plainColumn_def)
  have safe: "extendsSequelizeModel SubjectiveAttempt"
    by (simp add: SubjectiveAttempt_def)
  have entry: "addAttributesToInclude (Some WithoutIndexes)
                 (JObj [(''model'', JModel SubjectiveAttempt), (''include'', inner)]) =
               Inr (JObj [(''model'', JModel SubjectiveAttempt),
                          (''attributes'', attributeArray (getNonIndexes SubjectiveAttempt))])"
    for inner
    using safe
    by (simp add: addAttributesToInclude_descriptor filterAttributes_def orDefault_def)
  have "snd (findAllSafe Meeting (Some WithoutIndexes)
     (Some [(''include'',
        JArr [JObj [(''model'', JModel SubjectiveAttempt),
                    (''include'', JArr [JObj [(''model'', JModel Role)]])]])])) =
   Inr (FindAll (JObj
     [(''include'',
        JArr [JObj [(''model'', JModel SubjectiveAttempt),
                    (''attributes'', attributeArray (getNonIndexes SubjectiveAttempt))]]),
      (''attributes'', attributeArray (getNonIndexes Meeting))]))"
    by (simp add: findAllSafe_def delegate_def getAttributesDeep_present includeLoop_array
          entry orDefault_def filterAttributes_def)
  moreover have "snd (findAllSafe Meeting (Some WithoutIndexes)
     (Some [(''include'',
        JObj [(''model'', JModel SubjectiveAttempt),
              (''include'', JObj [(''model'', JModel Role)])])])) =
   Inr (FindAll (JObj
     [(''include'',
        JObj [(''model'', JModel SubjectiveAttempt),
              (''attributes'', attributeArray (getNonIndexes SubjectiveAttempt))]),
      (''attributes'', attributeArray (getNonIndexes Meeting))]))"
    by (simp add: findAllSafe_def delegate_def getAttributesDeep_present includeLoop_single
          entry orDefault_def filterAttributes_def)
  ultimately show ?thesis
    using lists by blast
qed

text \<open>
  C2. For every model, policy and options object, each safe-query method leaves in
  \<open>options.attributes\<close> the list the policy selects, and the options the ORM is
  handed are that object: all declared columns under \<open>WithIndexes\<close>, and under
  \<open>WithoutIndexes\<close> the declared columns that \<open>isIndex\<close> rejects, so that no column
  in the list is flagged primary key or has a reference (an empty table name, which
  JavaScript takes for false, is no reference).
\<close>

theorem safe_methods_inject_policy_attributes:
  "getProp (fst (callSafe meth m (Some p) (Some options))) ''attributes'' =
     attributeArray
       (case p of
          WithIndexes \<Rightarrow> map fst (rawAttributes m)
        | WithoutIndexes \<Rightarrow>
            filter (\<lambda>key. \<not> isIndexAt m key) (map fst (rawAttributes m))) \<and>
   (\<forall>call. snd (callSafe meth m (Some p) (Some options)) = Inr call \<longrightarrow>
      handedOptions call = fst (callSafe meth m (Some p) (Some options))) \<and>
   (p = WithoutIndexes \<longrightarrow>
      (\<forall>key col.
         JStr key \<in> set (elements (getProp (fst (callSafe meth m (Some p) (Some options)))
                                     ''attributes'')) \<longrightarrow>
         map_of (rawAttributes m) key = Some col \<longrightarrow>
         primaryKey col \<noteq> Some True \<and> (\<forall>t. references col = Some t \<longrightarrow> t = RefTable [])))"
proof -
  let ?after = "fst (callSafe meth m (Some p) (Some options))"
  have attrs: "getProp ?after ''attributes'' = attributeArray (filterAttributes m (Some p))"
    by (simp add: fst_callSafe getAttributesDeep_attributes orDefault_def)
  have keys: "primaryKey col \<noteq> Some True \<and> (\<forall>t. references col = Some t \<longrightarrow> t = RefTable [])"
    if "p = WithoutIndexes"
      and "JStr key \<in> set (elements (getProp ?after ''attributes''))"
      and col: "map_of (rawAttributes m) key = Some col" for key col
  proof -
    from that(2) have "JStr key \<in> set (elements (attributeArray (filterAttributes m (Some p))))"
      unfolding attrs .
    with that(1) have "\<not> isIndexAt m key"
      by (auto simp: filterAttributes_policy attributeArray_def)
    then show ?thesis using col by (rule not_isIndexAt)
  qed
  from attrs keys callSafe_handed [of meth m "Some p" "Some options"] show ?thesis
    unfolding filterAttributes_policy by blast
qed

theorem safe_methods_inject_policy_attributes_witness:
  "callSafe FindOneSafe Meeting (Some WithoutIndexes)
      (Some [(''where'', JObj [(''email'', JStr ''a@b.com'')])]) =
     (JObj [(''where'', JObj [(''email'', JStr ''a@b.com'')]),
        (''attributes'',
           JArr [JStr ''meetingId'', JStr ''status'', JStr ''scheduledAt'', JStr ''createdAt'',
                 JStr ''updatedAt''])],
      Inr (FindOne (JObj [(''where'', JObj [(''email'', JStr ''a@b.com'')]),
        (''attributes'',
           JArr [JStr ''meetingId'', JStr ''status'', JStr ''scheduledAt'', JStr ''createdAt'',
                 JStr ''updatedAt''])]))) \<and>
   JArr [JStr ''meetingId'', JStr ''status'', JStr ''scheduledAt'', JStr ''createdAt'',
         JStr ''updatedAt''] =
     attributeArray (filter (\<lambda>key. \<not> isIndexAt Meeting key) (map fst (rawAttributes Meeting)))"
proof -
  have run: "callSafe FindOneSafe Meeting (Some WithoutIndexes)
      (Some [(''where'', JObj [(''email'', JStr ''a@b.com'')])]) =
     (JObj [(''where'', JObj [(''email'', JStr ''a@b.com'')]),
        (''attributes'',
           JArr [JStr ''meetingId'', JStr ''status'', JStr ''scheduledAt'', JStr ''createdAt'',
                 JStr ''updatedAt''])],
      Inr (FindOne (JObj [(''where'', JObj [(''email'', JStr ''a@b.com'')]),
        (''attributes'',
           JArr [JStr ''meetingId'', JStr ''status'', JStr ''scheduledAt'', JStr ''createdAt'',
                 JStr ''updatedAt''])])))"
    by (simp add: findOneSafe_def delegate_def getAttributesDeep_present includeLoop_stop
          orDefault_def filterAttributes_policy attributeArray_def Meeting_def isIndexAt_def
          isIndex_def plainColumn_def)
  from safe_methods_inject_policy_attributes
         [of FindOneSafe Meeting WithoutIndexes "[(''where'', JObj [(''email'', JStr ''a@b.com'')])]",
          THEN conjunct1]
  show ?thesis unfolding run by simp
qed

text \<open>
  C3. The claim: the preprocessing changes nothing but the \<open>attributes\<close> it injects;
  \<open>where\<close>, \<open>limit\<close> and the other fields of each include descriptor, such as its own
  \<open>where\<close> or \<open>required\<close>, reach the ORM unchanged. The code keeps the fields of the
  options object itself, but an include descriptor is replaced by a new object of
  \<open>model\<close> and \<open>attributes\<close> only: at the options below the descriptor's \<open>where\<close>
  and \<open>required\<close> do not reach \<open>findAll\<close>.
\<close>

theorem include_where_is_dropped:
  "snd (findAllSafe Meeting (Some WithIndexes)
     (Some [(''where'', JObj [(''status'', JStr ''live'')]),
            (''limit'', JNum 10),
            (''include'',
               JArr [JObj [(''model'', JModel Role),
                           (''where'', JObj [(''roleName'', JStr ''admin'')]),
                           (''required'', JBool True)]])])) =
   Inr (FindAll (JObj
     [(''where'', JObj [(''status'', JStr ''live'')]),
      (''limit'', JNum 10),
      (''include'',
         JArr [JObj [(''model'', JModel Role),
                     (''attributes'', attributeArray (getAttributes Role))]]),
      (''attributes'', attributeArray (getAttributes Meeting))]))"
proof -
  have safe: "extendsSequelizeModel Role"
    by (simp add: Role_def)
  have entry: "addAttributesToInclude (Some WithIndexes)
                 (JObj [(''model'', JModel Role),
                        (''where'', JObj [(''roleName'', JStr ''admin'')]),
                        (''required'', JBool True)]) =
               Inr (JObj [(''model'', JModel Role),
                          (''attributes'', attributeArray (getAttributes Role))])"
    using safe
    by (simp add: addAttributesToInclude_descriptor filterAttributes_def orDefault_def)
  show ?thesis
    by (simp add: findAllSafe_def delegate_def getAttributesDeep_present includeLoop_array
          entry orDefault_def filterAttributes_def)
qed

text \<open>
  C4. The names \<open>getAttributes\<close> returns are those of \<open>getIndexes\<close> together with
  those of \<open>getNonIndexes\<close>, and no name is in both: each declared column is put in
  one of the two by the test \<open>isIndex\<close> on its metadata.
\<close>

theorem getAttributes_partition:
  "set (getAttributes m) = set (getIndexes m) \<union> set (getNonIndexes m) \<and>
   set (getIndexes m) \<inter> set (getNonIndexes m) = {} \<and>
   (\<forall>key \<in> set (getAttributes m).
      (key \<in> set (getIndexes m) \<longleftrightarrow> isIndexAt m key) \<and>
      (key \<in> set (getNonIndexes m) \<longleftrightarrow> \<not> isIndexAt m key))"
  by (auto simp: getAttributes_keys getIndexes_keys getNonIndexes_keys)

theorem getAttributes_partition_witness:
  "set (getAttributes Meeting) = set (getIndexes Meeting) \<union> set (getNonIndexes Meeting) \<and>
   set (getIndexes Meeting) \<inter> set (getNonIndexes Meeting) = {} \<and>
   getIndexes Meeting = [''_meetingId'', ''createdBy''] \<and>
   getNonIndexes Meeting =
     [''meetingId'', ''status'', ''scheduledAt'', ''createdAt'', ''updatedAt'']"
proof -
  have "getIndexes Meeting = [''_meetingId'', ''createdBy'']"
    and "getNonIndexes Meeting =
          [''meetingId'', ''status'', ''scheduledAt'', ''createdAt'', ''updatedAt'']"
    by (simp_all add: getIndexes_keys getNonIndexes_keys Meeting_def isIndexAt_def isIndex_def
          plainColumn_def)
  with getAttributes_partition [of Meeting] show ?thesis by simp
qed

text \<open>
  C5. Called without options, under any policy or none, each safe-query method raises
  nothing and hands the ORM the absent options as they are: no \<open>attributes\<close> is
  injected and no include is rewritten.
\<close>

theorem absent_options_pass_through:
  "findAllSafe m p None = (Undefined, Inr (FindAll Undefined)) \<and>
   createSafe m values p None = (Undefined, Inr (Create values Undefined)) \<and>
   findOneSafe m p None = (Undefined, Inr (FindOne Undefined)) \<and>
   findByPkSafe m p identifier None = (Undefined, Inr (FindByPk identifier Undefined)) \<and>
   findOrCreateSafe m p None = (Undefined, Inr (FindOrCreate Undefined))"
  by (simp add: findAllSafe_def createSafe_def findOneSafe_def findByPkSafe_def
        findOrCreateSafe_def delegate_def getAttributesDeep_absent)

theorem absent_options_pass_through_witness:
  "findAllSafe Meeting (Some WithoutIndexes) None = (Undefined, Inr (FindAll Undefined)) \<and>
   findByPkSafe Role None (JNum 7) None = (Undefined, Inr (FindByPk (JNum 7) Undefined))"
  using absent_options_pass_through [of Meeting "Some WithoutIndexes"]
    absent_options_pass_through [of Role None _ "JNum 7"]
  by simp

text \<open>
  C6. The claim: the wrapper raises no error of its own, for every policy and every
  options. The code raises a \<open>TypeError\<close> when an include descriptor names, in its
  \<open>model\<close> field, a model class that does not derive from \<open>SequelizeModel\<close>:
  \<open>addAttributesToInclude\<close> tests \<open>filterAttributes\<close> only for an entry without a
  \<open>model\<close> field, and calls it unchecked on the \<open>model\<close> of a descriptor. The same
  class given bare is passed through.
\<close>

theorem include_of_plain_orm_model_raises:
  "snd (findAllSafe Meeting None
          (Some [(''include'', JArr [JObj [(''model'', JModel OrmModel)]])])) =
     Inl TypeError \<and>
   snd (findAllSafe Meeting None (Some [(''include'', JArr [JModel OrmModel])])) =
     Inr (FindAll (JObj [(''include'', JArr [JModel OrmModel]),
                         (''attributes'', attributeArray (getAttributes Meeting))]))"
proof -
  have plain: "\<not> extendsSequelizeModel OrmModel"
    by (simp add: OrmModel_def)
  have "addAttributesToInclude (Some WithIndexes) (JObj [(''model'', JModel OrmModel)]) =
          Inl TypeError"
    using plain by (simp add: addAttributesToInclude_def)
  moreover have "addAttributesToInclude (Some WithIndexes) (JModel OrmModel) = Inr (JModel OrmModel)"
    using plain by (simp add: addAttributesToInclude_def)
  ultimately show ?thesis
    by (simp add: findAllSafe_def delegate_def getAttributesDeep_present includeLoop_array
          orDefault_def filterAttributes_def)
qed

text \<open>
  C7. \<open>createSafe\<close> and \<open>findOrCreateSafe\<close> do to the options what \<open>findAllSafe\<close>
  does for the same policy and options: they leave the object in the same state, hand
  \<open>create\<close> and \<open>findOrCreate\<close> the options it hands \<open>findAll\<close>, and fail when it
  fails.
\<close>

theorem create_and_findOrCreate_substitute_as_findAll:
  "fst (createSafe m values p options) = fst (findAllSafe m p options) \<and>
   map_sum (\<lambda>e. e) handedOptions (snd (createSafe m values p options)) =
     map_sum (\<lambda>e. e) handedOptions (snd (findAllSafe m p options)) \<and>
   fst (findOrCreateSafe m p options) = fst (findAllSafe m p options) \<and>
   map_sum (\<lambda>e. e) handedOptions (snd (findOrCreateSafe m p options)) =
     map_sum (\<lambda>e. e) handedOptions (snd (findAllSafe m p options))"
  by (simp add: createSafe_def findOrCreateSafe_def findAllSafe_def fst_delegate snd_delegate
        split: option.splits)

theorem create_and_findOrCreate_substitute_as_findAll_witness:
  "map_sum (\<lambda>e. e) handedOptions
     (snd (createSafe Role (JObj [(''roleName'', JStr ''admin'')]) (Some WithoutIndexes)
        (Some [(''include'', JModel Meeting)]))) =
   Inr (JObj
       [(''include'', JObj [(''model'', JModel Meeting),
           (''attributes'', attributeArray (getNonIndexes Meeting))]),
        (''attributes'', attributeArray (getNonIndexes Role))])"
  using create_and_findOrCreate_substitute_as_findAll
          [of Role "JObj [(''roleName'', JStr ''admin'')]" "Some WithoutIndexes"
              "Some [(''include'', JModel Meeting)]"]
  by (simp add: findAllSafe_Role_example)

text \<open>
  C8. When \<open>up\<close> has added the column \<open>type\<close> to the table Chats, \<open>down\<close> removes
  it and the schema is again what it was before \<open>up\<close>.
\<close>

theorem up_then_down_restores_schema:
  assumes "up ChatTypesEnum db = Inr db'"
  shows "down db' = Inr db"
proof -
  from assms obtain cols where cols: "db ''Chats'' = Some cols"
    and fresh: "''type'' \<notin> set (map fst cols)"
    and db': "db' = db(''Chats'' \<mapsto> cols @ [(''type'',
                 \<lparr>enumValues = ChatTypesEnum, defaultValue = ''chat''\<rparr>)])"
    by (auto simp: up_def addColumn_def split: option.splits if_splits)
  from fresh have "filter (\<lambda>p. fst p \<noteq> ''type'') cols = cols"
    by (induction cols) auto
  with cols db' show ?thesis
    by (simp add: down_def removeColumn_def fun_upd_idem)
qed

theorem up_then_down_restores_schema_witness:
  "up [''chat'', ''question''] [''Chats'' \<mapsto> [(''message'', \<lparr>enumValues = [], defaultValue = ''''\<rparr>)]] =
     Inr [''Chats'' \<mapsto> [(''message'', \<lparr>enumValues = [], defaultValue = ''''\<rparr>),
                         (''type'', \<lparr>enumValues = [''chat'', ''question''], defaultValue = ''chat''\<rparr>)]] \<and>
   down [''Chats'' \<mapsto> [(''message'', \<lparr>enumValues = [], defaultValue = ''''\<rparr>),
                         (''type'', \<lparr>enumValues = [''chat'', ''question''], defaultValue = ''chat''\<rparr>)]] =
     Inr [''Chats'' \<mapsto> [(''message'', \<lparr>enumValues = [], defaultValue = ''''\<rparr>)]]"
proof -
  have run: "up [''chat'', ''question''] [''Chats'' \<mapsto> [(''message'', \<lparr>enumValues = [], defaultValue = ''''\<rparr>)]] =
     Inr [''Chats'' \<mapsto> [(''message'', \<lparr>enumValues = [], defaultValue = ''''\<rparr>),
                         (''type'', \<lparr>enumValues = [''chat'', ''question''], defaultValue = ''chat''\<rparr>)]]"
    by (simp add: up_def addColumn_def)
  from up_then_down_restores_schema [OF run] run show ?thesis by simp
qed

text \<open>
  C9, amended. An include entry that is falsy, or has neither a \<open>model\<close> field nor a
  \<open>filterAttributes\<close> member (an association name given as a string, say), is
  returned by \<open>addAttributesToInclude\<close> unchanged, under every policy. As an element
  of an include array it stays as it is, and a sole entry that has no \<open>include\<close> of
  its own reaches the ORM unchanged. (The loop of \<open>getAttributesDeep\<close> goes on into the
  \<open>include\<close> of a sole entry that has one.)
\<close>

theorem unmatched_include_entry_unchanged:
  assumes "\<not> (truthy e \<and> (truthy (getProp e ''model'') \<or> hasFilterAttributes e))"
  shows "addAttributesToInclude p e = Inr e \<and>
         (\<forall>xs. map_of ps ''include'' = Some (JArr xs) \<longrightarrow>
            (\<exists>ys. getProp (fst (callSafe meth m p (Some ps))) ''include'' = JArr ys \<and>
                  length ys = length xs \<and>
                  (\<forall>i < length xs. xs ! i = e \<longrightarrow> ys ! i = e))) \<and>
         (map_of ps ''include'' = Some e \<longrightarrow> \<not> isArray e \<longrightarrow>
            \<not> truthy (getProp e ''include'') \<longrightarrow>
            (\<exists>call. snd (callSafe meth m p (Some ps)) = Inr call \<and>
                    getProp (handedOptions call) ''include'' = e))"
proof (intro conjI allI impI)
  let ?p = "Some (orDefault WithIndexes p)"
  have at: "orDefault WithIndexes ?p = orDefault WithIndexes p"
    by (simp add: orDefault_def)
  show step: "addAttributesToInclude p e = Inr e" for p
    using assms by (rule addAttributesToInclude_unmatched)
  {
    fix xs
    assume inc: "map_of ps ''include'' = Some (JArr xs)"
    from getAttributesDeep_array [OF inc, of m ?p]
    obtain ys where ys: "getProp (fst (getAttributesDeep m ?p (Some ps))) ''include'' = JArr ys"
      and len: "length ys = length xs"
      and each: "\<forall>i < length xs. ys ! i = xs ! i \<or>
                   addAttributesToInclude ?p (xs ! i) = Inr (ys ! i)"
      unfolding at by blast
    have "\<forall>i < length xs. xs ! i = e \<longrightarrow> ys ! i = e"
      using each step [of ?p] by auto
    with ys len
    show "\<exists>ys. getProp (fst (callSafe meth m p (Some ps))) ''include'' = JArr ys \<and>
                length ys = length xs \<and> (\<forall>i < length xs. xs ! i = e \<longrightarrow> ys ! i = e)"
      by (auto simp: fst_callSafe)
  }
  {
    assume inc: "map_of ps ''include'' = Some e"
      and sole: "\<not> isArray e"
      and leaf: "\<not> truthy (getProp e ''include'')"
    have finished: "snd (getAttributesDeep m ?p (Some ps)) = None \<and>
                getProp (fst (getAttributesDeep m ?p (Some ps))) ''include'' = e"
    proof (cases "truthy e")
      case False
      with inc show ?thesis
        by (simp add: getAttributesDeep_present includeLoop_stop map_of_update_other)
    next
      case True
      from inc True sole step [of "Some (orDefault WithIndexes ?p)"] leaf
      show ?thesis by (rule getAttributesDeep_single)
    qed
    then obtain call where call: "snd (callSafe meth m p (Some ps)) = Inr call"
      using callSafe_delegates by blast
    from callSafe_handed [OF call] finished
    have "getProp (handedOptions call) ''include'' = e"
      by (simp add: fst_callSafe)
    with call
    show "\<exists>call. snd (callSafe meth m p (Some ps)) = Inr call \<and>
                 getProp (handedOptions call) ''include'' = e"
      by blast
  }
qed

theorem unmatched_include_entry_unchanged_witness:
  "\<not> (truthy (JStr ''user'') \<and>
       (truthy (getProp (JStr ''user'') ''model'') \<or> hasFilterAttributes (JStr ''user''))) \<and>
   addAttributesToInclude (Some WithoutIndexes) (JStr ''user'') = Inr (JStr ''user'') \<and>
   (\<exists>call. snd (callSafe FindAllSafe Meeting (Some WithoutIndexes)
                   (Some [(''include'', JStr ''user'')])) = Inr call \<and>
           getProp (handedOptions call) ''include'' = JStr ''user'')"
proof -
  have unmatched: "\<not> (truthy (JStr ''user'') \<and>
       (truthy (getProp (JStr ''user'') ''model'') \<or> hasFilterAttributes (JStr ''user'')))"
    by simp
  from unmatched_include_entry_unchanged
         [OF unmatched, of "Some WithoutIndexes" "[(''include'', JStr ''user'')]" FindAllSafe Meeting]
  show ?thesis by simp
qed

text \<open>
  C9 as first stated says that no attribute filtering is applied below such an entry. The
  entry \<open>{ association: 'user', include: [Role] }\<close>, given as the sole include, is
  returned unchanged by \<open>addAttributesToInclude\<close>, and the next round of the loop
  rewrites the include nested in it.
\<close>

theorem unmatched_entry_with_include_is_descended:
  "\<not> truthy (getProp (JObj [(''association'', JStr ''user''), (''include'', JArr [JModel Role])]) ''model'') \<and>
   \<not> hasFilterAttributes (JObj [(''association'', JStr ''user''), (''include'', JArr [JModel Role])]) \<and>
   addAttributesToInclude (Some WithIndexes)
       (JObj [(''association'', JStr ''user''), (''include'', JArr [JModel Role])]) =
     Inr (JObj [(''association'', JStr ''user''), (''include'', JArr [JModel Role])]) \<and>
   snd (findAllSafe Meeting (Some WithIndexes)
       (Some [(''include'',
          JObj [(''association'', JStr ''user''), (''include'', JArr [JModel Role])])])) =
     Inr (FindAll (JObj
       [(''include'',
           JObj [(''association'', JStr ''user''),
                 (''include'', JArr [JObj [(''model'', JModel Role),
                       (''attributes'', attributeArray (getAttributes Role))]])]),
        (''attributes'', attributeArray (getAttributes Meeting))])) \<and>
   JObj [(''association'', JStr ''user''),
         (''include'', JArr [JObj [(''model'', JModel Role),
               (''attributes'', attributeArray (getAttributes Role))]])] \<noteq>
   JObj [(''association'', JStr ''user''), (''include'', JArr [JModel Role])]"
proof -
  have safe: "extendsSequelizeModel Role"
    by (simp add: Role_def)
  have outer: "addAttributesToInclude (Some WithIndexes)
       (JObj [(''association'', JStr ''user''), (''include'', JArr [JModel Role])]) =
     Inr (JObj [(''association'', JStr ''user''), (''include'', JArr [JModel Role])])"
    by (simp add: addAttributesToInclude_def)
  have inner: "addAttributesToInclude (Some WithIndexes) (JModel Role) =
     Inr (JObj [(''model'', JModel Role), (''attributes'', attributeArray (getAttributes Role))])"
    using safe by (simp add: addAttributesToInclude_model filterAttributes_def orDefault_def)
  have loop: "includeLoop WithIndexes
       (JObj [(''include'',
          JObj [(''association'', JStr ''user''), (''include'', JArr [JModel Role])]),
          (''attributes'', attributeArray (getAttributes Meeting))]) =
       (JObj
       [(''include'',
           JObj [(''association'', JStr ''user''),
                 (''include'', JArr [JObj [(''model'', JModel Role),
                       (''attributes'', attributeArray (getAttributes Role))]])]),
        (''attributes'', attributeArray (getAttributes Meeting))], None)"
    by (subst includeLoop_step)
       (simp_all add: rewriteInclude_def outer includeLoop_array inner)
  show ?thesis
    by (simp add: outer findAllSafe_def delegate_def getAttributesDeep_present loop orDefault_def
          filterAttributes_def)
qed

text \<open>
  C10. A safe-query method called without the policy argument does what it does when
  called with \<open>WithIndexes\<close>: given options, it injects the list of all declared
  columns.
\<close>

theorem omitted_policy_is_WithIndexes:
  "callSafe meth m None options = callSafe meth m (Some WithIndexes) options \<and>
   getProp (fst (callSafe meth m None (Some ps))) ''attributes'' =
     attributeArray (getAttributes m) \<and>
   getAttributes m = map fst (rawAttributes m)"
proof -
  have "callSafe meth m None options = callSafe meth m (Some WithIndexes) options"
    by (cases meth)
       (simp_all add: findAllSafe_def createSafe_def findOneSafe_def findByPkSafe_def
          findOrCreateSafe_def orDefault_def)
  moreover have "getProp (fst (callSafe meth m None (Some ps))) ''attributes'' =
                 attributeArray (getAttributes m)"
    by (simp add: fst_callSafe getAttributesDeep_attributes orDefault_def filterAttributes_def)
  ultimately show ?thesis by (simp add: getAttributes_keys)
qed

theorem omitted_policy_is_WithIndexes_witness:
  "callSafe (FindByPkSafe (JNum 7)) Role None (Some []) =
     (JObj [(''attributes'',
        JArr [JStr ''_roleId'', JStr ''roleId'', JStr ''roleName'', JStr ''createdAt'',
              JStr ''updatedAt''])],
      Inr (FindByPk (JNum 7) (JObj [(''attributes'',
        JArr [JStr ''_roleId'', JStr ''roleId'', JStr ''roleName'', JStr ''createdAt'',
              JStr ''updatedAt''])]))) \<and>
   JArr [JStr ''_roleId'', JStr ''roleId'', JStr ''roleName'', JStr ''createdAt'',
         JStr ''updatedAt''] = attributeArray (getAttributes Role)"
proof -
  have run: "callSafe (FindByPkSafe (JNum 7)) Role None (Some []) =
     (JObj [(''attributes'',
        JArr [JStr ''_roleId'', JStr ''roleId'', JStr ''roleName'', JStr ''createdAt'',
              JStr ''updatedAt''])],
      Inr (FindByPk (JNum 7) (JObj [(''attributes'',
        JArr [JStr ''_roleId'', JStr ''roleId'', JStr ''roleName'', JStr ''createdAt'',
              JStr ''updatedAt''])])))"
    by (simp add: findByPkSafe_def delegate_def getAttributesDeep_present includeLoop_stop
          orDefault_def filterAttributes_def getAttributes_keys attributeArray_def Role_def)
  from omitted_policy_is_WithIndexes
         [of "FindByPkSafe (JNum 7)" Role "Some []" "[]", THEN conjunct2, THEN conjunct1]
  show ?thesis unfolding run by simp
qed

subsection \<open>What the preprocessing does to the includes and to the other fields\<close>

text \<open>
  An include entry at the top level that is a class derived from \<open>SequelizeModel\<close>, or
  a descriptor whose \<open>model\<close> is one, is replaced by \<open>{ model, attributes }\<close> with
  that class's own list under the policy, as an element of an include array and as the
  sole include.
\<close>

theorem top_level_include_entries_rewritten:
  assumes "extendsSequelizeModel c"
    and "e = JModel c \<or> getProp e ''model'' = JModel c"
  shows "addAttributesToInclude p e =
           Inr (JObj [(''model'', JModel c),
                      (''attributes'',
                         attributeArray (filterAttributes c (Some (orDefault WithIndexes p))))]) \<and>
         (\<forall>xs call. map_of ps ''include'' = Some (JArr xs) \<longrightarrow>
            snd (callSafe meth m p (Some ps)) = Inr call \<longrightarrow>
            (\<exists>ys. getProp (handedOptions call) ''include'' = JArr ys \<and>
                  length ys = length xs \<and>
                  (\<forall>i < length xs. xs ! i = e \<longrightarrow>
                     ys ! i =
                       JObj [(''model'', JModel c),
                             (''attributes'',
                                attributeArray
                                  (filterAttributes c (Some (orDefault WithIndexes p))))]))) \<and>
         (map_of ps ''include'' = Some e \<longrightarrow>
            (\<exists>call. snd (callSafe meth m p (Some ps)) = Inr call \<and>
                    getProp (handedOptions call) ''include'' =
                      JObj [(''model'', JModel c),
                            (''attributes'',
                               attributeArray
                                 (filterAttributes c (Some (orDefault WithIndexes p))))]))"
proof (intro conjI allI impI)
  let ?p = "Some (orDefault WithIndexes p)"
  let ?new = "\<lambda>p. JObj [(''model'', JModel c),
                      (''attributes'',
                         attributeArray (filterAttributes c (Some (orDefault WithIndexes p))))]"
  have at: "orDefault WithIndexes ?p = orDefault WithIndexes p"
    by (simp add: orDefault_def)
  show step: "addAttributesToInclude p e = Inr (?new p)" for p
    using assms
    by (cases e)
       (auto simp: addAttributesToInclude_model addAttributesToInclude_descriptor
          split: option.splits)
  have shape: "truthy e \<and> \<not> isArray e"
    using assms(2) by (cases e) auto
  {
    fix xs call
    assume inc: "map_of ps ''include'' = Some (JArr xs)"
      and call: "snd (callSafe meth m p (Some ps)) = Inr call"
    have ok: "snd (getAttributesDeep m ?p (Some ps)) = None"
      using call
      by (cases meth)
         (auto simp: findAllSafe_def createSafe_def findOneSafe_def findByPkSafe_def
            findOrCreateSafe_def snd_delegate split: option.splits)
    from getAttributesDeep_array [OF inc, of m ?p] ok
    obtain ys where ys: "getProp (fst (getAttributesDeep m ?p (Some ps))) ''include'' = JArr ys"
      and len: "length ys = length xs"
      and each: "\<forall>i < length xs. addAttributesToInclude ?p (xs ! i) = Inr (ys ! i)"
      unfolding at by blast
    have "\<forall>i < length xs. xs ! i = e \<longrightarrow> ys ! i = ?new p"
      using each step [of ?p] by (auto simp: at)
    with ys len callSafe_handed [OF call]
    show "\<exists>ys. getProp (handedOptions call) ''include'' = JArr ys \<and>
                length ys = length xs \<and> (\<forall>i < length xs. xs ! i = e \<longrightarrow> ys ! i = ?new p)"
      by (auto simp: fst_callSafe)
  }
  {
    assume inc: "map_of ps ''include'' = Some e"
    have "snd (getAttributesDeep m ?p (Some ps)) = None \<and>
          getProp (fst (getAttributesDeep m ?p (Some ps))) ''include'' = ?new ?p"
      using inc shape step [of "Some (orDefault WithIndexes ?p)"]
      by (intro getAttributesDeep_single) (simp_all add: at)
    then have finished: "snd (getAttributesDeep m ?p (Some ps)) = None"
      and res: "getProp (fst (getAttributesDeep m ?p (Some ps))) ''include'' = ?new p"
      by (simp_all add: at)
    from finished obtain call where call: "snd (callSafe meth m p (Some ps)) = Inr call"
      using callSafe_delegates by blast
    from callSafe_handed [OF call] res
    have "getProp (handedOptions call) ''include'' = ?new p"
      by (simp add: fst_callSafe)
    with call
    show "\<exists>call. snd (callSafe meth m p (Some ps)) = Inr call \<and>
                 getProp (handedOptions call) ''include'' = ?new p"
      by blast
  }
qed

theorem top_level_include_entries_rewritten_witness:
  "extendsSequelizeModel Role \<and>
   addAttributesToInclude (Some WithoutIndexes) (JModel Role) =
     Inr (JObj [(''model'', JModel Role),
                (''attributes'', attributeArray (filterAttributes Role (Some WithoutIndexes)))]) \<and>
   (\<exists>call. snd (callSafe FindAllSafe Meeting (Some WithoutIndexes)
                   (Some [(''include'', JModel Role)])) = Inr call \<and>
           getProp (handedOptions call) ''include'' =
             JObj [(''model'', JModel Role),
                   (''attributes'', attributeArray (filterAttributes Role (Some WithoutIndexes)))])"
proof -
  have safe: "extendsSequelizeModel Role"
    by (simp add: Role_def)
  have entry: "JModel Role = JModel Role \<or> getProp (JModel Role) ''model'' = JModel Role"
    by simp
  from top_level_include_entries_rewritten
         [OF safe entry, of "Some WithoutIndexes" "[(''include'', JModel Role)]" FindAllSafe Meeting]
    safe
  show ?thesis by (simp add: orDefault_def)
qed

text \<open>
  Every field of the options object other than \<open>attributes\<close> and \<open>include\<close> is
  left as the caller gave it.
\<close>

theorem other_option_fields_pass_through:
  assumes "k \<noteq> ''include''" and "k \<noteq> ''attributes''"
  shows "getProp (fst (callSafe meth m p (Some ps))) k = getProp (JObj ps) k \<and>
         (\<forall>call. snd (callSafe meth m p (Some ps)) = Inr call \<longrightarrow>
            getProp (handedOptions call) k = getProp (JObj ps) k)"
proof -
  have "getProp (fst (callSafe meth m p (Some ps))) k = getProp (JObj ps) k"
    unfolding fst_callSafe using assms by (rule getAttributesDeep_frame)
  then show ?thesis
    using callSafe_handed [of meth m p "Some ps"] by auto
qed

theorem other_option_fields_pass_through_witness:
  "''where'' \<noteq> ''include'' \<and> ''where'' \<noteq> ''attributes'' \<and>
   getProp (fst (callSafe FindOneSafe Meeting None
       (Some [(''where'', JObj [(''status'', JStr ''live'')]), (''limit'', JNum 10)]))) ''where'' =
     JObj [(''status'', JStr ''live'')]"
proof -
  have w: "''where'' \<noteq> ''include''" "''where'' \<noteq> ''attributes''"
    by simp_all
  from other_option_fields_pass_through
         [OF w, of FindOneSafe Meeting None
            "[(''where'', JObj [(''status'', JStr ''live'')]), (''limit'', JNum 10)]"]
  show ?thesis by simp
qed

end
